theory Spec2Isabelle
  imports Complex_Main
begin

section \<open>The reaction game of src/script.js\<close>

text \<open>
  The script defines one class, \<open>ReactionGame\<close>, whose methods are run by three kinds of
  browser events: a click on one of the two buttons, a click anywhere in the body, and a
  timer created with \<open>setTimeout\<close>. The embedding keeps the class's fields and methods under
  their own names and makes the environment explicit: the \<open>localStorage\<close> slot, the set of
  pending timers, the console, the clock reading (\<open>Date.now()\<close>, an argument \<open>now\<close>) and
  the random draw (\<open>Math.random()\<close>, an argument \<open>rnd\<close>).

  Numbers. Clock readings in milliseconds and their differences are integers far below
  \<open>2^53\<close>, on which JavaScript's double arithmetic is exact; they are modelled as \<open>int\<close>.
  The stored text can be any string, so what \<open>parseInt\<close> reads from it is rounded to a
  double as JavaScript does, and can be \<open>NaN\<close> or infinite. The random delay is a
  \<open>real\<close>.

  Strings are lists of UTF-16 code units, as in JavaScript.

  The DOM elements the methods write to (visibility of the controls, text of the status,
  result and best-score elements) are output only: no method reads them back, and they are
  left out. The one DOM value that is read, \<open>event.target.tagName\<close>, is an argument.
\<close>

subsection \<open>Data\<close>

type_synonym jsstring = "nat list"

text \<open>\<open>GameStates\<close>, lines 7-13.\<close>

datatype GameStates = START | WAITING | READY | RESULT | ERROR

text \<open>
  A JavaScript number as far as this script meets one: \<open>NaN\<close>, a double whose value is
  an integer, or an infinity. The two zeros are one value here: both are falsy, they
  compare alike and \<open>toString\<close> writes \<open>0\<close> for both.
\<close>

datatype number = NaN | Num int | Infinity | NegInfinity

text \<open>
  The two closures handed to \<open>setTimeout\<close>: the one of \<open>startGame\<close> (lines 168-175) and
  the one of \<open>updateUI\<close> in the \<open>ERROR\<close> case (lines 143-145).
\<close>

datatype callback = TriggerCallback | AutoResetCallback

text \<open>
  One constructor for each \<open>console.log\<close> and \<open>console.error\<close> call of the script, with
  the values interpolated into the message.
\<close>

datatype console_msg =
    LogDomLoaded
  | LogInitialized
  | LogGameReady
  | LogStateChange GameStates
  | LogGameStart
  | LogWaitTime real
  | LogTurnedGreen
  | LogEarlyClick
  | ErrorStartTimeUnset
  | LogReactionTime int
  | LogNewRecord
  | LogReset

text \<open>
  The first five fields are the fields of \<open>ReactionGame\<close> (constructor, lines 19-23); a
  \<open>null\<close> field is \<open>None\<close>. The others are the environment: the text stored under the key
  \<open>reactionGameBestScore\<close>, the timers that are scheduled and have neither fired nor been
  cleared (handle, delay in milliseconds, callback), the next handle \<open>setTimeout\<close> will
  return, and what has been written to the console.
\<close>

record system =
  currentState :: GameStates
  startTime :: "int option"
  reactionTime :: "int option"
  waitTimeout :: "nat option"
  bestScore :: "number option"
  localStorage :: "jsstring option"
  timers :: "(nat \<times> real \<times> callback) list"
  nextHandle :: nat
  console :: "console_msg list"

subsection \<open>The browser functions the script calls\<close>

text \<open>
  \<open>setTimeout\<close> returns a handle, a positive integer that no other timer has, and
  \<open>clearTimeout\<close> removes the timer with that handle if it is still pending.
\<close>

definition setTimeout :: "callback \<Rightarrow> real \<Rightarrow> system \<Rightarrow> nat \<times> system" where
  "setTimeout cb delay w =
     (nextHandle w,
      w\<lparr>timers := timers w @ [(nextHandle w, delay, cb)], nextHandle := Suc (nextHandle w)\<rparr>)"

definition clearTimeout :: "nat \<Rightarrow> system \<Rightarrow> system" where
  "clearTimeout h w = w\<lparr>timers := filter (\<lambda>t. fst t \<noteq> h) (timers w)\<rparr>"

definition consoleLog :: "console_msg \<Rightarrow> system \<Rightarrow> system" where
  "consoleLog m w = w\<lparr>console := console w @ [m]\<rparr>"

text \<open>Truthiness: \<open>null\<close>, \<open>NaN\<close> and \<open>0\<close> are falsy, so is the empty string.\<close>

fun truthyNumber :: "number option \<Rightarrow> bool" where
  "truthyNumber None = False"
| "truthyNumber (Some NaN) = False"
| "truthyNumber (Some (Num n)) = (n \<noteq> 0)"
| "truthyNumber (Some Infinity) = True"
| "truthyNumber (Some NegInfinity) = True"

fun truthyInt :: "int option \<Rightarrow> bool" where
  "truthyInt None = False"
| "truthyInt (Some n) = (n \<noteq> 0)"

fun truthyHandle :: "nat option \<Rightarrow> bool" where
  "truthyHandle None = False"
| "truthyHandle (Some h) = (h \<noteq> 0)"

text \<open>\<open>a < b\<close> on numbers: false when either side is \<open>NaN\<close>.\<close>

fun lessNumber :: "number \<Rightarrow> number \<Rightarrow> bool" where
  "lessNumber NaN _ = False"
| "lessNumber _ NaN = False"
| "lessNumber (Num a) (Num b) = (a < b)"
| "lessNumber (Num a) Infinity = True"
| "lessNumber (Num a) NegInfinity = False"
| "lessNumber Infinity _ = False"
| "lessNumber NegInfinity NegInfinity = False"
| "lessNumber NegInfinity _ = True"

text \<open>
  The Number value of an integer: the nearest double, ties to the even significand, and
  an infinity from \<open>2^1024 - 2^970\<close> on. A double has 53 significant bits; \<open>bitLength\<close>
  counts the bits of a natural number.
\<close>

fun bitLength :: "nat \<Rightarrow> nat" where
  "bitLength n = (if n = 0 then 0 else Suc (bitLength (n div 2)))"

declare bitLength.simps [simp del]

definition numberValue :: "int \<Rightarrow> number" where
  "numberValue x =
     (let m = nat \<bar>x\<bar>;
          e = bitLength m - 53;
          q = m div 2 ^ e;
          r = m mod 2 ^ e;
          q' = (if 2 ^ e < 2 * r \<or> (2 * r = 2 ^ e \<and> odd q) then q + 1 else q);
          y = q' * 2 ^ e
      in if 2 ^ 1024 \<le> y then (if x < 0 then NegInfinity else Infinity)
         else Num (if x < 0 then - int y else int y))"

text \<open>
  \<open>parseInt\<close> with no radix, after ECMA-262: skip leading white space, take a sign, take
  a \<open>0x\<close> or \<open>0X\<close> prefix as radix 16, read the longest run of digits of the radix, and
  return \<open>NaN\<close> when that run is empty, the Number value of the integer read otherwise.
  What follows the run is ignored. (For more than 20 decimal digits the standard lets an
  implementation read the digits after the 20th as 0; the model reads them all, as the
  engines in use do.)
\<close>

definition isWhiteSpace :: "nat \<Rightarrow> bool" where
  "isWhiteSpace c \<longleftrightarrow>
     c \<in> {9, 10, 11, 12, 13, 32, 160, 5760, 8232, 8233, 8239, 8287, 12288, 65279}
     \<or> (8192 \<le> c \<and> c \<le> 8202)"

definition digitValue :: "nat \<Rightarrow> nat" where
  "digitValue c =
     (if 48 \<le> c \<and> c \<le> 57 then c - 48
      else if 97 \<le> c \<and> c \<le> 122 then c - 87
      else if 65 \<le> c \<and> c \<le> 90 then c - 55
      else 36)"

definition stripSign :: "jsstring \<Rightarrow> bool \<times> jsstring" where
  "stripSign s =
     (case s of
        c # r \<Rightarrow> if c = 45 then (True, r) else if c = 43 then (False, r) else (False, s)
      | [] \<Rightarrow> (False, s))"

definition stripHexPrefix :: "jsstring \<Rightarrow> nat \<times> jsstring" where
  "stripHexPrefix s =
     (case s of
        a # b # r \<Rightarrow> if a = 48 \<and> (b = 120 \<or> b = 88) then (16, r) else (10, s)
      | _ \<Rightarrow> (10, s))"

definition parseInt :: "jsstring \<Rightarrow> number" where
  "parseInt s =
     (let (neg, s2) = stripSign (dropWhile isWhiteSpace s);
          (R, s3) = stripHexPrefix s2;
          Z = takeWhile (\<lambda>c. digitValue c < R) s3
      in if Z = [] then NaN
         else numberValue
                ((if neg then - 1 else 1) * int (foldl (\<lambda>a c. a * R + digitValue c) 0 Z)))"

text \<open>
  \<open>toString\<close> of an integer below \<open>2^53\<close> in magnitude: its decimal digits, after a
  minus sign when negative. (From \<open>2^53\<close> on \<open>toString\<close> writes the shortest digits
  that read back as the same double, and an exponent from \<open>10^21\<close> on; the one call, in
  \<open>saveBestScore\<close>, passes a difference of two clock readings.)
\<close>

fun digits :: "nat \<Rightarrow> jsstring" where
  "digits n = (if n < 10 then [48 + n] else digits (n div 10) @ [48 + n mod 10])"

declare digits.simps [simp del]

definition numToString :: "int \<Rightarrow> jsstring" where
  "numToString n = (if n < 0 then 45 # digits (nat (- n)) else digits (nat n))"

subsection \<open>The methods of ReactionGame\<close>

text \<open>\<open>loadBestScore\<close>, lines 64-67: \<open>saved ? parseInt(saved) : null\<close>.\<close>

definition loadBestScore :: "jsstring option \<Rightarrow> number option" where
  "loadBestScore slot =
     (case slot of
        None \<Rightarrow> None
      | Some saved \<Rightarrow> if saved \<noteq> [] then Some (parseInt saved) else None)"

text \<open>\<open>saveBestScore\<close>, lines 72-75.\<close>

definition saveBestScore :: "int \<Rightarrow> system \<Rightarrow> system" where
  "saveBestScore score w =
     w\<lparr>localStorage := Some (numToString score), bestScore := Some (Num score)\<rparr>"

text \<open>
  \<open>updateUI\<close>, lines 106-148. Every case writes to the DOM; the \<open>ERROR\<close> case also
  schedules the reset after 3000 ms and drops the handle \<open>setTimeout\<close> returns.
\<close>

definition updateUI :: "system \<Rightarrow> system" where
  "updateUI w =
     (case currentState w of
        ERROR \<Rightarrow> snd (setTimeout AutoResetCallback 3000 w)
      | _ \<Rightarrow> w)"

text \<open>\<open>setState\<close>, lines 87-101.\<close>

definition setState :: "GameStates \<Rightarrow> system \<Rightarrow> system" where
  "setState newState w =
     consoleLog (LogStateChange newState) (updateUI (w\<lparr>currentState := newState\<rparr>))"

text \<open>
  The guarded \<open>clearTimeout\<close> that opens \<open>startGame\<close> (lines 157-159), which leaves the
  field as it is, and the one of \<open>handleEarlyClick\<close> and \<open>resetGame\<close> (lines 207-210 and
  290-293), which also sets the field to \<open>null\<close>.
\<close>

definition clearWaitTimeout :: "system \<Rightarrow> system" where
  "clearWaitTimeout w =
     (case waitTimeout w of
        Some h \<Rightarrow> if truthyHandle (Some h) then clearTimeout h w else w
      | None \<Rightarrow> w)"

definition clearAndForgetWaitTimeout :: "system \<Rightarrow> system" where
  "clearAndForgetWaitTimeout w =
     (case waitTimeout w of
        Some h \<Rightarrow> if truthyHandle (Some h) then (clearTimeout h w)\<lparr>waitTimeout := None\<rparr> else w
      | None \<Rightarrow> w)"

text \<open>
  \<open>startGame\<close>, lines 153-176; \<open>rnd\<close> is the value of \<open>Math.random()\<close>. The callback
  it schedules is \<open>triggerCallback\<close>, lines 168-175.
\<close>

definition startGame :: "real \<Rightarrow> system \<Rightarrow> system" where
  "startGame rnd w =
     (let w1 = consoleLog LogGameStart w;
          w2 = clearWaitTimeout w1;
          w3 = setState WAITING w2;
          waitTime = rnd * 2000 + 1000;
          w4 = consoleLog (LogWaitTime waitTime) w3;
          (h, w5) = setTimeout TriggerCallback waitTime w4
      in w5\<lparr>waitTimeout := Some h\<rparr>)"

definition triggerCallback :: "int \<Rightarrow> system \<Rightarrow> system" where
  "triggerCallback now w =
     (if currentState w = WAITING
      then consoleLog LogTurnedGreen (setState READY (w\<lparr>startTime := Some now\<rparr>))
      else w)"

text \<open>\<open>handleEarlyClick\<close>, lines 203-214.\<close>

definition handleEarlyClick :: "system \<Rightarrow> system" where
  "handleEarlyClick w =
     setState ERROR (clearAndForgetWaitTimeout (consoleLog LogEarlyClick w))"

text \<open>\<open>getResultMessage\<close>, lines 261-281, and the five string literals it uses.\<close>

definition msgUltraFast :: jsstring where
  "msgUltraFast = [55357, 56960, 32, 36229, 24555, 21453, 25033, 65281]"

definition msgGreat :: jsstring where
  "msgGreat = [9889, 32, 21453, 25033, 24456, 26834, 65281]"

definition msgGood :: jsstring where
  "msgGood = [55357, 56397, 32, 34920, 29694, 19981, 37679, 65281]"

definition msgRoomToImprove :: jsstring where
  "msgRoomToImprove = [55357, 56332, 32, 36996, 26377, 36914, 27493, 31354, 38291]"

definition msgNewRecord :: jsstring where
  "msgNewRecord = [10, 55356, 57225, 32, 26032, 32000, 37636, 65281]"

definition getResultMessage :: "int \<Rightarrow> bool \<Rightarrow> jsstring" where
  "getResultMessage time isNewRecord =
     (let message =
            (if time < 200 then msgUltraFast
             else if time < 300 then msgGreat
             else if time < 500 then msgGood
             else msgRoomToImprove)
      in if isNewRecord then message @ msgNewRecord else message)"

text \<open>
  \<open>handleReactionClick\<close>, lines 219-244; \<open>now\<close> is the value of \<open>Date.now()\<close> at line
  226. The guard of line 220 is \<open>!this.startTime\<close>, the record test of line 232 is
  \<open>!this.bestScore || this.reactionTime < this.bestScore\<close>. \<open>showResult\<close> and
  \<open>updateBestScoreDisplay\<close> write to the DOM only.
\<close>

definition isNewRecord :: "int \<Rightarrow> number option \<Rightarrow> bool" where
  "isNewRecord rt best \<longleftrightarrow>
     \<not> truthyNumber best \<or> (case best of Some b \<Rightarrow> lessNumber (Num rt) b | None \<Rightarrow> False)"

definition handleReactionClick :: "int \<Rightarrow> system \<Rightarrow> system" where
  "handleReactionClick now w =
     (case startTime w of
        None \<Rightarrow> consoleLog ErrorStartTimeUnset w
      | Some t0 \<Rightarrow>
          if \<not> truthyInt (Some t0) then consoleLog ErrorStartTimeUnset w
          else
            let rt = now - t0;
                w1 = consoleLog (LogReactionTime rt) (w\<lparr>reactionTime := Some rt\<rparr>);
                w2 = (if isNewRecord rt (bestScore w1)
                      then consoleLog LogNewRecord (saveBestScore rt w1)
                      else w1)
            in setState RESULT w2)"

text \<open>\<open>handleBodyClick\<close>, lines 181-198.\<close>

definition handleBodyClick :: "string \<Rightarrow> int \<Rightarrow> system \<Rightarrow> system" where
  "handleBodyClick tagName now w =
     (if tagName = ''BUTTON'' then w
      else case currentState w of
             WAITING \<Rightarrow> handleEarlyClick w
           | READY \<Rightarrow> handleReactionClick now w
           | _ \<Rightarrow> w)"

text \<open>\<open>resetGame\<close>, lines 286-301.\<close>

definition resetGame :: "system \<Rightarrow> system" where
  "resetGame w =
     setState START
       ((clearAndForgetWaitTimeout (consoleLog LogReset w))
          \<lparr>startTime := None, reactionTime := None\<rparr>)"

text \<open>
  The constructor with \<open>init\<close> (lines 17-59), inside the \<open>DOMContentLoaded\<close> listener
  (lines 305-312), on a page whose storage slot holds \<open>slot\<close>.
\<close>

definition newReactionGame :: "jsstring option \<Rightarrow> system" where
  "newReactionGame slot =
     consoleLog LogGameReady
       (consoleLog LogInitialized
          (setState START
             \<lparr>currentState = START, startTime = None, reactionTime = None,
              waitTimeout = None, bestScore = loadBestScore slot,
              localStorage = slot, timers = [], nextHandle = 1,
              console = [LogDomLoaded]\<rparr>))"

subsection \<open>Events\<close>

text \<open>
  The listeners bound in \<open>init\<close> (lines 49-53) and the timers. \<open>Start\<close> is a click that
  reaches the start button's listener, \<open>Reset\<close> one that reaches the play-again
  button's listener, \<open>Click\<close> one that reaches the body's listener (with the tag name of
  its target), \<open>Fire h now\<close> the timer with handle \<open>h\<close> coming due when the clock reads
  \<open>now\<close>: it leaves the pending timers and its callback runs. Events are processed one at
  a time, in the order of the list.
\<close>

datatype event = Start real | Reset | Click string int | Fire nat int

fun runCallback :: "callback \<Rightarrow> int \<Rightarrow> system \<Rightarrow> system" where
  "runCallback TriggerCallback now w = triggerCallback now w"
| "runCallback AutoResetCallback now w = resetGame w"

definition fire :: "nat \<Rightarrow> int \<Rightarrow> system \<Rightarrow> system" where
  "fire h now w =
     (case find (\<lambda>t. fst t = h) (timers w) of
        None \<Rightarrow> w
      | Some (_, _, cb) \<Rightarrow> runCallback cb now (clearTimeout h w))"

fun step :: "event \<Rightarrow> system \<Rightarrow> system" where
  "step (Start rnd) w = startGame rnd w"
| "step Reset w = resetGame w"
| "step (Click tagName now) w = handleBodyClick tagName now w"
| "step (Fire h now) w = fire h now w"

fun run :: "event list \<Rightarrow> system \<Rightarrow> system" where
  "run [] w = w"
| "run (e # es) w = run es (step e w)"

subsection \<open>Notions used to state the properties\<close>

text \<open>The handles of a list of pending timers, and those whose callback is \<open>cb\<close>.\<close>

definition handlesOf :: "(nat \<times> real \<times> callback) list \<Rightarrow> nat list" where
  "handlesOf ts = map fst ts"

definition pendingOf :: "callback \<Rightarrow> (nat \<times> real \<times> callback) list \<Rightarrow> nat list" where
  "pendingOf cb ts = map fst (filter (\<lambda>t. snd (snd t) = cb) ts)"

text \<open>
  What every state the game can be in satisfies. Pending timers have distinct, positive
  handles below the next one. A trigger timer is pending only in \<open>WAITING\<close>, where it is
  the one \<open>waitTimeout\<close> holds. \<open>waitTimeout\<close> is \<open>null\<close> in \<open>START\<close> and
  \<open>ERROR\<close>; in \<open>READY\<close> and \<open>RESULT\<close> it still holds the handle of the trigger
  that has fired.
\<close>

definition handlesOk :: "system \<Rightarrow> bool" where
  "handlesOk w \<longleftrightarrow>
     0 < nextHandle w \<and> distinct (handlesOf (timers w)) \<and>
     (\<forall>h \<in> set (handlesOf (timers w)). 0 < h \<and> h < nextHandle w)"

definition staleHandle :: "system \<Rightarrow> bool" where
  "staleHandle w \<longleftrightarrow>
     (case waitTimeout w of
        None \<Rightarrow> False
      | Some h \<Rightarrow> 0 < h \<and> h < nextHandle w \<and> h \<notin> set (handlesOf (timers w)))"

definition invariant :: "system \<Rightarrow> bool" where
  "invariant w \<longleftrightarrow>
     handlesOk w \<and>
     (case currentState w of
        START \<Rightarrow> waitTimeout w = None \<and> pendingOf TriggerCallback (timers w) = []
      | ERROR \<Rightarrow> waitTimeout w = None \<and> pendingOf TriggerCallback (timers w) = []
      | WAITING \<Rightarrow>
          (case waitTimeout w of
             None \<Rightarrow> False
           | Some h \<Rightarrow> pendingOf TriggerCallback (timers w) = [h])
      | READY \<Rightarrow> staleHandle w \<and> pendingOf TriggerCallback (timers w) = []
      | RESULT \<Rightarrow> staleHandle w \<and> pendingOf TriggerCallback (timers w) = [])"

text \<open>
  A decimal integer as text, in the words of the persistence interface: decimal digits,
  after a minus sign or not; and the integer it denotes.
\<close>

definition isDecimalDigit :: "nat \<Rightarrow> bool" where
  "isDecimalDigit c \<longleftrightarrow> 48 \<le> c \<and> c \<le> 57"

definition decimalOf :: "jsstring \<Rightarrow> nat" where
  "decimalOf ds = foldl (\<lambda>a c. a * 10 + (c - 48)) 0 ds"

definition decimalText :: "jsstring \<Rightarrow> bool" where
  "decimalText s \<longleftrightarrow>
     (case s of
        [] \<Rightarrow> False
      | c # r \<Rightarrow> if c = 45 then r \<noteq> [] \<and> list_all isDecimalDigit r
                 else list_all isDecimalDigit s)"

definition decimalValue :: "jsstring \<Rightarrow> int" where
  "decimalValue s =
     (case s of
        [] \<Rightarrow> 0
      | c # r \<Rightarrow> if c = 45 then - int (decimalOf r) else int (decimalOf s))"

text \<open>
  The parts a text is made of when an integer is read from its start: white space, a
  sign (\<open>+\<close>, \<open>-\<close> or none), perhaps \<open>0x\<close> or \<open>0X\<close>, a run of digits, and the rest.
\<close>

definition isSign :: "nat \<Rightarrow> bool" where
  "isSign c \<longleftrightarrow> c = 43 \<or> c = 45"

definition isHexDigit :: "nat \<Rightarrow> bool" where
  "isHexDigit c \<longleftrightarrow> (48 \<le> c \<and> c \<le> 57) \<or> (97 \<le> c \<and> c \<le> 102) \<or> (65 \<le> c \<and> c \<le> 70)"

definition hexDigitOf :: "nat \<Rightarrow> nat" where
  "hexDigitOf c = (if c \<le> 57 then c - 48 else if c \<le> 70 then c - 55 else c - 87)"

definition hexOf :: "jsstring \<Rightarrow> nat" where
  "hexOf hs = foldl (\<lambda>a c. a * 16 + hexDigitOf c) 0 hs"

definition startsWith :: "(nat \<Rightarrow> bool) \<Rightarrow> jsstring \<Rightarrow> bool" where
  "startsWith P s = (case s of [] \<Rightarrow> False | c # _ \<Rightarrow> P c)"

definition hexPrefixed :: "jsstring \<Rightarrow> bool" where
  "hexPrefixed s = (case s of a # b # _ \<Rightarrow> a = 48 \<and> (b = 120 \<or> b = 88) | _ \<Rightarrow> False)"

definition signed :: "jsstring \<Rightarrow> int \<Rightarrow> int" where
  "signed sg n = (if sg = [45] then - n else n)"

text \<open>
  A state in \<open>READY\<close> whose \<open>startTime\<close> is \<open>null\<close>. No run of the game reaches
  it; the guard of \<open>handleReactionClick\<close> is there for it.
\<close>

definition readyWithoutStartTime :: system where
  "readyWithoutStartTime =
     \<lparr>currentState = READY, startTime = None, reactionTime = None,
      waitTimeout = Some 1, bestScore = Some (Num 180),
      localStorage = Some [49, 56, 48], timers = [], nextHandle = 2, console = []\<rparr>"

section \<open>Properties\<close>

lemmas method_defs =
  setTimeout_def clearTimeout_def consoleLog_def updateUI_def setState_def
  clearWaitTimeout_def clearAndForgetWaitTimeout_def startGame_def triggerCallback_def
  handleEarlyClick_def isNewRecord_def handleReactionClick_def handleBodyClick_def
  resetGame_def newReactionGame_def fire_def saveBestScore_def loadBestScore_def

subsection \<open>Lists of pending timers\<close>

lemma handlesOf_filter [simp]:
  "handlesOf (filter (\<lambda>t. fst t \<noteq> h) ts) = filter (\<lambda>x. x \<noteq> h) (handlesOf ts)"
  by (induction ts) (auto simp: handlesOf_def)

lemma handlesOf_snoc [simp]: "handlesOf (ts @ [(h, d, cb)]) = handlesOf ts @ [h]"
  by (simp add: handlesOf_def)

lemma handlesOf_Nil [simp]: "handlesOf [] = []"
  by (simp add: handlesOf_def)

lemma pendingOf_filter [simp]:
  "pendingOf cb (filter (\<lambda>t. fst t \<noteq> h) ts) = filter (\<lambda>x. x \<noteq> h) (pendingOf cb ts)"
  by (induction ts) (auto simp: pendingOf_def)

lemma pendingOf_snoc [simp]:
  "pendingOf cb (ts @ [(h, d, cb')]) = pendingOf cb ts @ (if cb' = cb then [h] else [])"
  by (simp add: pendingOf_def)

lemma pendingOf_Nil [simp]: "pendingOf cb [] = []"
  by (simp add: pendingOf_def)

lemma pendingOf_subset: "set (pendingOf cb ts) \<subseteq> set (handlesOf ts)"
  by (auto simp: pendingOf_def handlesOf_def)

lemma pendingOf_stale:
  "h \<notin> set (handlesOf ts) \<Longrightarrow> filter (\<lambda>x. x \<noteq> h) (pendingOf cb ts) = pendingOf cb ts"
  using pendingOf_subset [of cb ts] by (auto simp: filter_id_conv)

lemma pendingOf_single:
  "pendingOf cb ts = [h] \<Longrightarrow> h \<in> set (handlesOf ts)"
  using pendingOf_subset [of cb ts] by auto

lemma invariant_new: "invariant (newReactionGame slot)"
  by (simp add: invariant_def handlesOk_def method_defs)

lemma invariant_startGame: "invariant w \<Longrightarrow> invariant (startGame rnd w)"
  by (cases "currentState w")
    (auto simp: invariant_def handlesOk_def staleHandle_def method_defs Let_def pendingOf_stale
      split: option.splits dest: pendingOf_single)

lemma invariant_resetGame: "invariant w \<Longrightarrow> invariant (resetGame w)"
  by (cases "currentState w")
    (auto simp: invariant_def handlesOk_def staleHandle_def method_defs Let_def pendingOf_stale
      split: option.splits dest: pendingOf_single)

lemma invariant_handleBodyClick: "invariant w \<Longrightarrow> invariant (handleBodyClick tagName now w)"
  by (cases "currentState w")
    (auto simp: invariant_def handlesOk_def staleHandle_def method_defs Let_def pendingOf_stale
      split: option.splits dest: pendingOf_single)


lemma find_handle:
  "find (\<lambda>t. fst t = h) ts = Some (h', d, cb) \<Longrightarrow> h' = h \<and> (h, d, cb) \<in> set ts"
  by (induction ts) (auto split: if_splits)

lemma pendingOf_mem:
  "(h, d, cb) \<in> set ts \<Longrightarrow> h \<in> set (pendingOf cb ts)"
  by (force simp: pendingOf_def)

lemma invariant_clear_autoReset:
  assumes "invariant w" and "(h, d, AutoResetCallback) \<in> set (timers w)"
  shows "invariant (clearTimeout h w)"
proof -
  have "h \<notin> set (pendingOf TriggerCallback (timers w))"
    using assms by (force simp: invariant_def handlesOk_def pendingOf_def handlesOf_def distinct_map inj_on_def)
  then have "filter (\<lambda>x. x \<noteq> h) (pendingOf TriggerCallback (timers w)) = pendingOf TriggerCallback (timers w)"
    by (auto simp: filter_id_conv)
  then show ?thesis
    using assms(1)
    by (cases "currentState w")
       (auto simp: invariant_def handlesOk_def staleHandle_def clearTimeout_def
         split: option.splits)
qed

lemma invariant_trigger_fires:
  assumes "invariant w" and "(h, d, TriggerCallback) \<in> set (timers w)"
  shows "invariant (triggerCallback now (clearTimeout h w))"
proof -
  from assms(2) have m: "h \<in> set (pendingOf TriggerCallback (timers w))"
    by (rule pendingOf_mem)
  with assms(1) have st: "currentState w = WAITING" and wt: "waitTimeout w = Some h"
    and p: "pendingOf TriggerCallback (timers w) = [h]"
    by (cases "currentState w"; auto simp: invariant_def split: option.splits)+
  from assms(1) have ok: "handlesOk w" by (simp add: invariant_def)
  with pendingOf_single [OF p] have "0 < h" "h < nextHandle w"
    by (auto simp: handlesOk_def)
  with st wt p ok show ?thesis
    by (simp add: invariant_def handlesOk_def staleHandle_def triggerCallback_def
        clearTimeout_def setState_def updateUI_def consoleLog_def)
qed

lemma invariant_fire: "invariant w \<Longrightarrow> invariant (fire h now w)"
proof (cases "find (\<lambda>t. fst t = h) (timers w)")
  case None
  then show "invariant w \<Longrightarrow> invariant (fire h now w)" by (simp add: fire_def)
next
  case (Some t)
  assume inv: "invariant w"
  obtain h' d cb where t: "t = (h', d, cb)" by (cases t)
  from Some t have mem: "(h, d, cb) \<in> set (timers w)"
    using find_handle [of h "timers w" h' d cb] by simp
  show "invariant (fire h now w)"
  proof (cases cb)
    case TriggerCallback
    with inv mem Some t show ?thesis
      by (simp add: fire_def invariant_trigger_fires)
  next
    case AutoResetCallback
    with inv mem Some t show ?thesis
      by (simp add: fire_def invariant_clear_autoReset invariant_resetGame)
  qed
qed

lemma invariant_step: "invariant w \<Longrightarrow> invariant (step e w)"
  by (cases e) (simp_all add: invariant_startGame invariant_resetGame invariant_handleBodyClick invariant_fire)

lemma invariant_run: "invariant w \<Longrightarrow> invariant (run es w)"
  by (induction es arbitrary: w) (simp_all add: invariant_step)


lemma invariant_reachable: "invariant (run es (newReactionGame slot))"
  by (simp add: invariant_run invariant_new)

lemma autoReset_not_waitTimeout:
  assumes "invariant w" and "(h, d, AutoResetCallback) \<in> set (timers w)"
  shows "waitTimeout w \<noteq> Some h"
proof
  assume wt: "waitTimeout w = Some h"
  have np: "h \<notin> set (pendingOf TriggerCallback (timers w))"
    using assms by (force simp: invariant_def handlesOk_def pendingOf_def handlesOf_def distinct_map inj_on_def)
  have hm: "h \<in> set (handlesOf (timers w))"
    using assms(2) by (force simp: handlesOf_def)
  from assms(1) wt np hm show False
    by (cases "currentState w") (auto simp: invariant_def staleHandle_def)
qed

lemma timers_clearWaitTimeout:
  "waitTimeout w \<noteq> Some h \<Longrightarrow> t \<in> set (timers w) \<Longrightarrow> fst t = h \<Longrightarrow>
   t \<in> set (timers (clearWaitTimeout w)) \<and> t \<in> set (timers (clearAndForgetWaitTimeout w))"
  by (auto simp: clearWaitTimeout_def clearAndForgetWaitTimeout_def clearTimeout_def split: option.splits)

subsection \<open>A handle that is not pending never becomes pending\<close>

lemma handlesOf_filter_mem:
  "h \<in> set (handlesOf (filter P ts)) \<Longrightarrow> h \<in> set (handlesOf ts)"
  by (auto simp: handlesOf_def)

lemma stale_handle_step:
  assumes "h < nextHandle w" and "h \<notin> set (handlesOf (timers w))"
  shows "h < nextHandle (step e w) \<and> h \<notin> set (handlesOf (timers (step e w)))"
proof (cases e)
  case (Fire h' now)
  show ?thesis
  proof (cases "find (\<lambda>t. fst t = h') (timers w)")
    case None
    with assms Fire show ?thesis by (simp add: fire_def)
  next
    case (Some t)
    obtain x y cb where t: "t = (x, y, cb)" by (cases t)
    with Some assms Fire show ?thesis
      by (cases cb)
         (auto simp: fire_def triggerCallback_def resetGame_def setState_def updateUI_def
           consoleLog_def clearAndForgetWaitTimeout_def clearTimeout_def
           split: option.splits dest: handlesOf_filter_mem)
  qed
qed (use assms in \<open>auto simp: method_defs Let_def split: option.splits GameStates.splits\<close>)

lemma stale_handle_run:
  "h < nextHandle w \<Longrightarrow> h \<notin> set (handlesOf (timers w)) \<Longrightarrow>
   h < nextHandle (run es w) \<and> h \<notin> set (handlesOf (timers (run es w)))"
proof (induction es arbitrary: w)
  case Nil
  then show ?case by simp
next
  case (Cons e es)
  from stale_handle_step [OF Cons.prems, of e] Cons.IH [of "step e w"]
  show ?case by simp
qed

subsection \<open>Reading an integer from the start of a text\<close>

lemma digitValue_decimal_iff: "digitValue c < 10 \<longleftrightarrow> isDecimalDigit c"
  by (auto simp: digitValue_def isDecimalDigit_def)

lemma digitValue_hex_iff: "digitValue c < 16 \<longleftrightarrow> isHexDigit c"
  by (auto simp: digitValue_def isHexDigit_def)

lemma digitValue_decimal: "isDecimalDigit c \<Longrightarrow> digitValue c = c - 48"
  by (auto simp: digitValue_def isDecimalDigit_def)

lemma digitValue_hex: "isHexDigit c \<Longrightarrow> digitValue c = hexDigitOf c"
  by (auto simp: digitValue_def isHexDigit_def hexDigitOf_def)

lemma foldl_decimal:
  "list_all isDecimalDigit ds \<Longrightarrow>
   foldl (\<lambda>a c. a * 10 + digitValue c) a ds = foldl (\<lambda>a c. a * 10 + (c - 48)) a ds"
  by (induction ds arbitrary: a) (simp_all add: digitValue_decimal)

lemma foldl_hex:
  "list_all isHexDigit hs \<Longrightarrow>
   foldl (\<lambda>a c. a * 16 + digitValue c) a hs = foldl (\<lambda>a c. a * 16 + hexDigitOf c) a hs"
  by (induction hs arbitrary: a) (simp_all add: digitValue_hex)

lemma takeWhile_run:
  "list_all P ds \<Longrightarrow> \<not> startsWith P rest \<Longrightarrow> takeWhile P (ds @ rest) = ds"
  by (induction ds) (auto simp: startsWith_def split: list.splits)

lemma dropWhile_run:
  "list_all P ws \<Longrightarrow> \<not> startsWith P t \<Longrightarrow> dropWhile P (ws @ t) = t"
  by (induction ws) (auto simp: startsWith_def split: list.splits)

lemma stripSign_parts:
  assumes "sg \<in> {[], [43], [45]}" and "sg = [] \<longrightarrow> \<not> startsWith isSign t"
  shows "stripSign (sg @ t) = (sg = [45], t)"
  using assms by (auto simp: stripSign_def startsWith_def isSign_def split: list.splits)

lemma stripHexPrefix_none: "\<not> hexPrefixed t \<Longrightarrow> stripHexPrefix t = (10, t)"
  by (auto simp: stripHexPrefix_def hexPrefixed_def split: list.splits)

lemma stripHexPrefix_some: "x = 120 \<or> x = 88 \<Longrightarrow> stripHexPrefix (48 # x # t) = (16, t)"
  by (auto simp: stripHexPrefix_def)

lemma parseInt_parts:
  assumes "dropWhile isWhiteSpace s = t" and "stripSign t = (neg, s2)"
    and "stripHexPrefix s2 = (R, s3)" and "takeWhile (\<lambda>c. digitValue c < R) s3 = Z"
  shows "parseInt s =
         (if Z = [] then NaN
          else numberValue
                 ((if neg then - 1 else 1) * int (foldl (\<lambda>a c. a * R + digitValue c) 0 Z)))"
  using assms by (simp add: parseInt_def)

lemma sign_not_space:
  assumes "sg \<in> {[], [43], [45]}" and "sg = [] \<longrightarrow> \<not> startsWith isWhiteSpace t"
  shows "\<not> startsWith isWhiteSpace (sg @ t)"
  using assms by (auto simp: startsWith_def isWhiteSpace_def)

lemma digit_start:
  assumes "ds \<noteq> []" and "list_all isDecimalDigit ds"
  shows "\<not> startsWith isWhiteSpace (ds @ rest)" and "\<not> startsWith isSign (ds @ rest)"
  using assms
  by (cases ds; auto simp: startsWith_def isWhiteSpace_def isSign_def isDecimalDigit_def)+

lemma parseInt_decimal_run:
  assumes ws: "list_all isWhiteSpace ws" and sg: "sg \<in> {[], [43], [45]}"
    and ds: "ds \<noteq> []" "list_all isDecimalDigit ds"
    and rest: "\<not> startsWith isDecimalDigit rest" and nohex: "\<not> hexPrefixed (ds @ rest)"
  shows "parseInt (ws @ sg @ ds @ rest) = numberValue (signed sg (int (decimalOf ds)))"
proof -
  have 1: "dropWhile isWhiteSpace (ws @ sg @ ds @ rest) = sg @ ds @ rest"
    using ws sign_not_space [OF sg] digit_start(1) [OF ds] by (simp add: dropWhile_run)
  have 2: "stripSign (sg @ ds @ rest) = (sg = [45], ds @ rest)"
    using stripSign_parts [OF sg] digit_start(2) [OF ds] by simp
  have 3: "stripHexPrefix (ds @ rest) = (10, ds @ rest)"
    using nohex by (rule stripHexPrefix_none)
  have 4: "takeWhile (\<lambda>c. digitValue c < 10) (ds @ rest) = ds"
    using ds(2) rest by (simp add: digitValue_decimal_iff takeWhile_run)
  have 5: "foldl (\<lambda>a c. a * 10 + digitValue c) 0 ds = decimalOf ds"
    unfolding decimalOf_def using ds(2) by (rule foldl_decimal)
  show ?thesis
    unfolding parseInt_parts [OF 1 2 3 4] 5 using ds(1) by (simp add: signed_def)
qed

lemma parseInt_hex_run:
  assumes ws: "list_all isWhiteSpace ws" and sg: "sg \<in> {[], [43], [45]}"
    and x: "x = 120 \<or> x = 88"
    and hs: "hs \<noteq> []" "list_all isHexDigit hs"
    and rest: "\<not> startsWith isHexDigit rest"
  shows "parseInt (ws @ sg @ 48 # x # hs @ rest) = numberValue (signed sg (int (hexOf hs)))"
proof -
  have z: "\<not> startsWith isWhiteSpace (48 # x # hs @ rest)" "\<not> startsWith isSign (48 # x # hs @ rest)"
    by (simp_all add: startsWith_def isWhiteSpace_def isSign_def)
  have 1: "dropWhile isWhiteSpace (ws @ sg @ 48 # x # hs @ rest) = sg @ 48 # x # hs @ rest"
    using ws sign_not_space [OF sg] z(1) by (simp add: dropWhile_run)
  have 2: "stripSign (sg @ 48 # x # hs @ rest) = (sg = [45], 48 # x # hs @ rest)"
    using stripSign_parts [OF sg] z(2) by simp
  have 3: "stripHexPrefix (48 # x # hs @ rest) = (16, hs @ rest)"
    using x by (rule stripHexPrefix_some)
  have 4: "takeWhile (\<lambda>c. digitValue c < 16) (hs @ rest) = hs"
    using hs(2) rest by (simp add: digitValue_hex_iff takeWhile_run)
  have 5: "foldl (\<lambda>a c. a * 16 + digitValue c) 0 hs = hexOf hs"
    unfolding hexOf_def using hs(2) by (rule foldl_hex)
  show ?thesis
    unfolding parseInt_parts [OF 1 2 3 4] 5 using hs(1) by (simp add: signed_def)
qed

lemma parseInt_no_digit:
  assumes ws: "list_all isWhiteSpace ws" and sg: "sg \<in> {[], [43], [45]}"
    and body: "\<not> startsWith isDecimalDigit body"
    and bare: "sg = [] \<longrightarrow> \<not> startsWith isWhiteSpace body \<and> \<not> startsWith isSign body"
  shows "parseInt (ws @ sg @ body) = NaN"
proof -
  have 1: "dropWhile isWhiteSpace (ws @ sg @ body) = sg @ body"
    using ws sign_not_space [OF sg] bare by (simp add: dropWhile_run)
  have 2: "stripSign (sg @ body) = (sg = [45], body)"
    using stripSign_parts [OF sg] bare by simp
  have "\<not> hexPrefixed body"
    using body by (auto simp: hexPrefixed_def startsWith_def isDecimalDigit_def split: list.splits)
  then have 3: "stripHexPrefix body = (10, body)"
    by (rule stripHexPrefix_none)
  have 4: "takeWhile (\<lambda>c. digitValue c < 10) body = []"
    using body takeWhile_run [of isDecimalDigit "[]" body] by (simp add: digitValue_decimal_iff)
  show ?thesis
    unfolding parseInt_parts [OF 1 2 3 4] by simp
qed

lemma parseInt_hex_no_digit:
  assumes ws: "list_all isWhiteSpace ws" and sg: "sg \<in> {[], [43], [45]}"
    and x: "x = 120 \<or> x = 88" and rest: "\<not> startsWith isHexDigit rest"
  shows "parseInt (ws @ sg @ 48 # x # rest) = NaN"
proof -
  have z: "\<not> startsWith isWhiteSpace (48 # x # rest)" "\<not> startsWith isSign (48 # x # rest)"
    by (simp_all add: startsWith_def isWhiteSpace_def isSign_def)
  have 1: "dropWhile isWhiteSpace (ws @ sg @ 48 # x # rest) = sg @ 48 # x # rest"
    using ws sign_not_space [OF sg] z(1) by (simp add: dropWhile_run)
  have 2: "stripSign (sg @ 48 # x # rest) = (sg = [45], 48 # x # rest)"
    using stripSign_parts [OF sg] z(2) by simp
  have 3: "stripHexPrefix (48 # x # rest) = (16, rest)"
    using x by (rule stripHexPrefix_some)
  have 4: "takeWhile (\<lambda>c. digitValue c < 16) rest = []"
    using rest takeWhile_run [of isHexDigit "[]" rest] by (simp add: digitValue_hex_iff)
  show ?thesis
    unfolding parseInt_parts [OF 1 2 3 4] by simp
qed

lemma bitLength_le: "m < 2 ^ k \<Longrightarrow> bitLength m \<le> k"
proof (induction k arbitrary: m)
  case 0
  then show ?case by (simp add: bitLength.simps)
next
  case (Suc k)
  show ?case
  proof (cases "m = 0")
    case True
    then show ?thesis by (simp add: bitLength.simps)
  next
    case False
    from Suc.prems have "m div 2 < 2 ^ k" by simp
    then have "bitLength (m div 2) \<le> k" by (rule Suc.IH)
    with False show ?thesis by (subst bitLength.simps) simp
  qed
qed

lemma numberValue_safe:
  assumes "\<bar>x\<bar> < 2 ^ 53"
  shows "numberValue x = Num x"
proof -
  have m: "nat \<bar>x\<bar> < 2 ^ 53" using assms by (simp add: nat_less_iff)
  then have e: "bitLength (nat \<bar>x\<bar>) - 53 = 0" using bitLength_le [OF m] by simp
  have "(2::nat) ^ 53 \<le> 2 ^ 1024" by (rule power_increasing) simp_all
  with m have big: "\<not> (2::nat) ^ 1024 \<le> nat \<bar>x\<bar>" by linarith
  show ?thesis
    unfolding numberValue_def Let_def e using big by simp
qed

lemma digit_char: "d < 10 \<Longrightarrow> isDecimalDigit (48 + d) \<and> 48 + d - 48 = d"
  by (simp add: isDecimalDigit_def)

lemma digits_decimal:
  "digits n \<noteq> [] \<and> list_all isDecimalDigit (digits n) \<and>
   foldl (\<lambda>a c. a * 10 + (c - 48)) a (digits n) = a * 10 ^ length (digits n) + n"
proof (induction n arbitrary: a rule: digits.induct)
  case (1 n)
  show ?case
  proof (cases "n < 10")
    case True
    then show ?thesis
      using digit_char [of n] by (subst (1 2 3 4) digits.simps) simp
  next
    case False
    have m: "n mod 10 < 10" by simp
    from "1.IH" [OF False] False digit_char [OF m] show ?thesis
      by (subst (1 2 3 4) digits.simps) (simp add: algebra_simps)
  qed
qed

lemma decimalOf_digits: "decimalOf (digits n) = n"
  using digits_decimal [of n 0] by (simp add: decimalOf_def)

lemma digits_not_minus: "digits n \<noteq> [] \<and> hd (digits n) \<noteq> 45"
  using digits_decimal [of n 0] by (cases "digits n") (auto simp: isDecimalDigit_def)

lemma numToString_decimal: "decimalText (numToString v) \<and> decimalValue (numToString v) = v"
proof (cases "v < 0")
  case True
  then show ?thesis
    using digits_decimal [of "nat (- v)" 0]
    by (simp add: numToString_def decimalText_def decimalValue_def decimalOf_digits)
next
  case False
  obtain c r where d: "digits (nat v) = c # r"
    using digits_not_minus [of "nat v"] by (cases "digits (nat v)") auto
  with digits_not_minus [of "nat v"] have c: "c \<noteq> 45" by simp
  have all: "list_all isDecimalDigit (digits (nat v))"
    using digits_decimal [of "nat v" 0] by simp
  have "decimalText (digits (nat v))"
    unfolding decimalText_def using all c by (simp add: d)
  moreover have "decimalValue (digits (nat v)) = v"
    unfolding decimalValue_def using c False decimalOf_digits [of "nat v"] by (simp add: d)
  ultimately show ?thesis using False by (simp add: numToString_def)
qed

lemma digits_no_hex: "list_all isDecimalDigit ds \<Longrightarrow> \<not> hexPrefixed (ds @ [])"
  by (auto simp: hexPrefixed_def isDecimalDigit_def split: list.splits)

lemma parseInt_decimalText:
  assumes "decimalText s"
  shows "parseInt s = numberValue (decimalValue s)"
proof (cases s)
  case Nil
  with assms show ?thesis by (simp add: decimalText_def)
next
  case (Cons c r)
  have e: "\<not> startsWith isDecimalDigit []" by (simp add: startsWith_def)
  show ?thesis
  proof (cases "c = 45")
    case True
    with assms Cons have r: "r \<noteq> []" "list_all isDecimalDigit r"
      by (auto simp: decimalText_def)
    from parseInt_decimal_run [of "[]" "[45]" r "[]", OF _ _ r e digits_no_hex [OF r(2)]]
    show ?thesis using Cons True by (simp add: signed_def decimalValue_def)
  next
    case False
    with assms Cons have d: "s \<noteq> []" "list_all isDecimalDigit s"
      by (auto simp: decimalText_def)
    from parseInt_decimal_run [of "[]" "[]" s "[]", OF _ _ d e digits_no_hex [OF d(2)]]
    show ?thesis using Cons False by (simp add: signed_def decimalValue_def)
  qed
qed

lemma bitLength_upper: "m < 2 ^ bitLength m"
proof (induction m rule: bitLength.induct)
  case (1 n)
  show ?case
  proof (cases "n = 0")
    case True
    then show ?thesis by simp
  next
    case False
    with "1.IH" have "n div 2 < 2 ^ bitLength (n div 2)" by simp
    then have "n < 2 * 2 ^ bitLength (n div 2)" by linarith
    with False show ?thesis by (subst bitLength.simps) simp
  qed
qed

lemma bitLength_lower: "0 < m \<Longrightarrow> 2 ^ (bitLength m - 1) \<le> m"
proof (induction m rule: bitLength.induct)
  case (1 n)
  have bn: "bitLength n = Suc (bitLength (n div 2))"
    using "1.prems" by (subst bitLength.simps) simp
  show ?case
  proof (cases "n div 2 = 0")
    case True
    then have "bitLength (n div 2) = 0" by (simp add: bitLength.simps)
    with bn "1.prems" show ?thesis by simp
  next
    case False
    with "1.prems" "1.IH" have ih: "2 ^ (bitLength (n div 2) - 1) \<le> n div 2" by simp
    from False have "bitLength (n div 2) = Suc (bitLength (n div 2 div 2))"
      by (subst bitLength.simps) simp
    then have "2 ^ (bitLength n - 1) = 2 * 2 ^ (bitLength (n div 2) - 1)"
      using bn by simp
    also have "\<dots> \<le> 2 * (n div 2)" using ih by simp
    also have "\<dots> \<le> n" by simp
    finally show ?thesis .
  qed
qed

lemma rounding_keeps_magnitude:
  assumes "2 ^ k \<le> m" and "p \<le> k"
  shows "2 ^ k \<le> (m div 2 ^ (bitLength m - Suc p)) * 2 ^ (bitLength m - Suc p)"
proof -
  define b where "b = bitLength m"
  define e where "e = b - Suc p"
  have mpos: "0 < m" using assms(1) by (rule less_le_trans [rotated]) simp
  from assms(1) bitLength_upper [of m] have "(2::nat) ^ k < 2 ^ bitLength m"
    by (rule le_less_trans)
  then have kb: "k < b" by (simp add: b_def)
  have split: "bitLength m - 1 = p + e" using kb assms(2) by (simp add: e_def b_def)
  have "(2::nat) ^ (p + e) \<le> m" using bitLength_lower [OF mpos] unfolding split .
  then have "(2::nat) ^ p * 2 ^ e \<le> m" by (simp only: power_add)
  then have "2 ^ p \<le> m div 2 ^ e"
    by (simp add: less_eq_div_iff_mult_less_eq)
  then have a: "2 ^ p * 2 ^ e \<le> (m div 2 ^ e) * 2 ^ e" by simp
  have "k \<le> p + e" using kb split by (simp add: b_def)
  then have "(2::nat) ^ k \<le> 2 ^ (p + e)" by (rule power_increasing) simp
  then have "(2::nat) ^ k \<le> 2 ^ p * 2 ^ e" by (simp add: power_add)
  then show ?thesis using a unfolding e_def b_def by (rule le_trans)
qed

lemma int_power_le_nat_abs:
  assumes "(2::int) ^ k \<le> x" and "0 < x"
  shows "(2::nat) ^ k \<le> nat \<bar>x\<bar>"
proof -
  have "nat ((2::int) ^ k) \<le> nat x" using assms(1) by (rule nat_mono)
  moreover have "nat ((2::int) ^ k) = 2 ^ k" by (simp add: nat_power_eq)
  moreover have "nat \<bar>x\<bar> = nat x" using assms(2) by simp
  ultimately show ?thesis by simp
qed

lemma numberValue_overflow:
  assumes "2 ^ 1024 \<le> x"
  shows "numberValue x = Infinity"
proof -
  define m where "m = nat \<bar>x\<bar>"
  define e where "e = bitLength m - 53"
  define q where "q = m div 2 ^ e"
  have x0: "0 < x" using assms by (rule less_le_trans [rotated]) (rule zero_less_power, simp)
  have m: "2 ^ 1024 \<le> m" unfolding m_def using assms x0 by (rule int_power_le_nat_abs)
  have s: "53 = Suc 52" by simp
  have "2 ^ 1024 \<le> q * 2 ^ e"
    unfolding q_def e_def s using m by (rule rounding_keeps_magnitude) simp
  moreover have "q * 2 ^ e \<le> (q + 1) * 2 ^ e" by simp
  ultimately have y: "2 ^ 1024 \<le> (if C then q + 1 else q) * 2 ^ e" for C
    by (cases C) (simp_all only: if_True if_False)
  have nx: "\<not> x < 0" using x0 by simp
  show ?thesis
    unfolding numberValue_def Let_def m_def [symmetric] e_def [symmetric] q_def [symmetric]
    by (simp only: y if_True nx if_False)
qed

lemma not_startsWith_dropWhile: "\<not> startsWith P (dropWhile P xs)"
  by (induction xs) (auto simp: startsWith_def)

lemma list_all_takeWhile: "list_all P (takeWhile P xs)"
  by (induction xs) auto

lemma text_parts:
  "\<exists>ws sg body.
     s = ws @ sg @ body \<and> list_all isWhiteSpace ws \<and> sg \<in> {[], [43], [45]} \<and>
     (sg = [] \<longrightarrow> \<not> startsWith isWhiteSpace body \<and> \<not> startsWith isSign body) \<and>
     ((\<exists>x hs rest. body = 48 # x # hs @ rest \<and> (x = 120 \<or> x = 88) \<and>
          list_all isHexDigit hs \<and> \<not> startsWith isHexDigit rest)
      \<or> (\<exists>ds rest. body = ds @ rest \<and> ds \<noteq> [] \<and> list_all isDecimalDigit ds \<and>
            \<not> startsWith isDecimalDigit rest \<and> \<not> hexPrefixed (ds @ rest))
      \<or> \<not> startsWith isDecimalDigit body)"
proof -
  define ws where "ws = takeWhile isWhiteSpace s"
  define t where "t = dropWhile isWhiteSpace s"
  have s: "s = ws @ t" by (simp add: ws_def t_def)
  have ws: "list_all isWhiteSpace ws"
    by (simp add: ws_def list_all_takeWhile)
  have t: "\<not> startsWith isWhiteSpace t"
    by (simp add: t_def not_startsWith_dropWhile)
  obtain sg body where sb: "t = sg @ body" "sg \<in> {[], [43], [45]}"
    "sg = [] \<longrightarrow> \<not> startsWith isWhiteSpace body \<and> \<not> startsWith isSign body"
  proof (cases "startsWith isSign t")
    case True
    then obtain c r where "t = c # r" "c = 43 \<or> c = 45"
      by (cases t) (auto simp: startsWith_def isSign_def)
    then have "t = [c] @ r" "[c] \<in> {[], [43], [45]}" "[c] \<noteq> []" by auto
    with that show ?thesis by blast
  next
    case False
    with t that [of "[]" t] show ?thesis by simp
  qed
  have shape: "(\<exists>x hs rest. body = 48 # x # hs @ rest \<and> (x = 120 \<or> x = 88) \<and>
          list_all isHexDigit hs \<and> \<not> startsWith isHexDigit rest)
      \<or> (\<exists>ds rest. body = ds @ rest \<and> ds \<noteq> [] \<and> list_all isDecimalDigit ds \<and>
            \<not> startsWith isDecimalDigit rest \<and> \<not> hexPrefixed (ds @ rest))
      \<or> \<not> startsWith isDecimalDigit body"
  proof (cases "hexPrefixed body")
    case True
    then obtain x u where bu: "body = 48 # x # u" "x = 120 \<or> x = 88"
      by (auto simp: hexPrefixed_def split: list.splits)
    have "u = takeWhile isHexDigit u @ dropWhile isHexDigit u" by simp
    moreover have "list_all isHexDigit (takeWhile isHexDigit u)"
      by (rule list_all_takeWhile)
    moreover have "\<not> startsWith isHexDigit (dropWhile isHexDigit u)"
      by (rule not_startsWith_dropWhile)
    ultimately show ?thesis using bu by metis
  next
    case False
    show ?thesis
    proof (cases "startsWith isDecimalDigit body")
      case True
      have "body = takeWhile isDecimalDigit body @ dropWhile isDecimalDigit body" by simp
      moreover have "takeWhile isDecimalDigit body \<noteq> []"
        using True by (cases body) (auto simp: startsWith_def)
      moreover have "list_all isDecimalDigit (takeWhile isDecimalDigit body)"
        by (rule list_all_takeWhile)
      moreover have "\<not> startsWith isDecimalDigit (dropWhile isDecimalDigit body)"
        by (rule not_startsWith_dropWhile)
      moreover have "\<not> hexPrefixed (takeWhile isDecimalDigit body @ dropWhile isDecimalDigit body)"
        using False by simp
      ultimately show ?thesis by metis
    next
      case False
      then show ?thesis by simp
    qed
  qed
  from s sb(1) have "s = ws @ sg @ body" by simp
  with ws sb(2,3) shape show ?thesis
    by - (rule exI [of _ ws], rule exI [of _ sg], rule exI [of _ body], simp)
qed

lemma bitLength_example: "bitLength 9007199254740993 = 54"
  by (simp add: bitLength.simps)

lemma numberValue_example: "numberValue 9007199254740993 = Num 9007199254740992"
  unfolding numberValue_def Let_def by (simp add: bitLength_example)

section \<open>The claims\<close>

subsection \<open>C1: a click before the trigger\<close>

text \<open>
  Claim C1. In a game that is in \<open>WAITING\<close>, a click on the surface that is processed
  before the trigger callback moves the game to \<open>ERROR\<close>, not to \<open>READY\<close>. The trigger
  callback, run on the state the click leaves, changes nothing, as it changes nothing in any
  state other than \<open>WAITING\<close>. The click has also cleared the trigger timer: no trigger
  is pending after it, and whatever events follow, the timer whose handle \<open>waitTimeout\<close>
  held never fires.
\<close>

theorem early_click_wins_race:
  assumes "w = run es (newReactionGame slot)" and "currentState w = WAITING"
    and "tagName \<noteq> ''BUTTON''"
  shows "currentState (handleBodyClick tagName now w) = ERROR \<and>
         currentState (handleBodyClick tagName now w) \<noteq> READY \<and>
         triggerCallback now' (handleBodyClick tagName now w) = handleBodyClick tagName now w \<and>
         (currentState w2 \<noteq> WAITING \<longrightarrow> triggerCallback now' w2 = w2) \<and>
         pendingOf TriggerCallback (timers (handleBodyClick tagName now w)) = [] \<and>
         (case waitTimeout w of
            None \<Rightarrow> False
          | Some h \<Rightarrow>
              fire h now' (run es' (handleBodyClick tagName now w)) =
              run es' (handleBodyClick tagName now w))"
proof -
  have inv: "invariant w" using assms(1) by (simp add: invariant_reachable)
  let ?w' = "handleBodyClick tagName now w"
  have inv': "invariant ?w'" using inv by (rule invariant_handleBodyClick)
  have st: "currentState ?w' = ERROR"
    using assms(2,3)
    by (simp add: handleBodyClick_def handleEarlyClick_def setState_def updateUI_def
        consoleLog_def setTimeout_def)
  from inv' st have p: "pendingOf TriggerCallback (timers ?w') = []"
    by (simp add: invariant_def)
  have tr: "triggerCallback now' ?w' = ?w'"
    using st by (simp add: triggerCallback_def)
  have tr2: "currentState w2 \<noteq> WAITING \<longrightarrow> triggerCallback now' w2 = w2"
    by (simp add: triggerCallback_def)
  from inv assms(2) obtain h where wt: "waitTimeout w = Some h"
    and ph: "pendingOf TriggerCallback (timers w) = [h]"
    by (cases "waitTimeout w") (auto simp: invariant_def)
  from inv have ok: "handlesOk w" by (simp add: invariant_def)
  with pendingOf_single [OF ph] have hb: "0 < h" "h < nextHandle w"
    by (auto simp: handlesOk_def)
  then have gone: "h < nextHandle ?w' \<and> h \<notin> set (handlesOf (timers ?w'))"
    using assms(2,3) wt
    by (simp add: handleBodyClick_def handleEarlyClick_def setState_def updateUI_def
        consoleLog_def setTimeout_def clearAndForgetWaitTimeout_def clearTimeout_def)
  then have "h \<notin> set (handlesOf (timers (run es' ?w')))"
    using stale_handle_run [of h ?w' es'] by simp
  then have "find (\<lambda>t. fst t = h) (timers (run es' ?w')) = None"
    by (force simp: find_None_iff handlesOf_def)
  then have f: "fire h now' (run es' ?w') = run es' ?w'"
    by (simp add: fire_def)
  from st p tr tr2 f wt show ?thesis by simp
qed

text \<open>
  The theorem at a game started on a fresh page and clicked at once: the state is
  \<open>ERROR\<close>, and the trigger, whose handle was 1, does not fire even after a reset and a
  new start.
\<close>

theorem early_click_wins_race_witness:
  "currentState (run [Start 0] (newReactionGame None)) = WAITING \<and>
   waitTimeout (run [Start 0] (newReactionGame None)) = Some 1 \<and>
   currentState (handleBodyClick ''DIV'' 500 (run [Start 0] (newReactionGame None))) = ERROR \<and>
   fire 1 1000 (run [Reset, Start 0] (handleBodyClick ''DIV'' 500 (run [Start 0] (newReactionGame None))))
     = run [Reset, Start 0] (handleBodyClick ''DIV'' 500 (run [Start 0] (newReactionGame None)))"
proof -
  have h1: "currentState (run [Start 0] (newReactionGame None)) = WAITING"
    by (simp add: method_defs Let_def)
  have h2: "waitTimeout (run [Start 0] (newReactionGame None)) = Some 1"
    by (simp add: method_defs Let_def)
  have h3: "''DIV'' \<noteq> ''BUTTON''" by simp
  from early_click_wins_race [OF refl h1 h3, of 500 1000 "newReactionGame None" "[Reset, Start 0]"]
    h1 h2
  show ?thesis by simp
qed

subsection \<open>C2: the reaction time\<close>

text \<open>
  Claim C2 says that every click on the surface in \<open>READY\<close> with \<open>startTime\<close>
  recorded sets \<open>reactionTime\<close> to the clock reading minus \<open>startTime\<close>. The guard of
  \<open>handleReactionClick\<close> is \<open>!this.startTime\<close>, and a recorded time of 0 is falsy. When
  the trigger fires while the clock reads 0, \<open>startTime\<close> is 0; the click at 250 then
  writes the error message and returns: the state is still \<open>READY\<close>, no reaction time
  and no best score is recorded, where the claim has the reaction time 250.
\<close>

theorem zero_startTime_click_records_nothing:
  "currentState (run [Start 0, Fire 1 0] (newReactionGame None)) = READY \<and>
   startTime (run [Start 0, Fire 1 0] (newReactionGame None)) = Some 0 \<and>
   currentState (run [Start 0, Fire 1 0, Click ''DIV'' 250] (newReactionGame None)) = READY \<and>
   reactionTime (run [Start 0, Fire 1 0, Click ''DIV'' 250] (newReactionGame None)) = None \<and>
   bestScore (run [Start 0, Fire 1 0, Click ''DIV'' 250] (newReactionGame None)) = None \<and>
   localStorage (run [Start 0, Fire 1 0, Click ''DIV'' 250] (newReactionGame None)) = None \<and>
   last (console (run [Start 0, Fire 1 0, Click ''DIV'' 250] (newReactionGame None)))
     = ErrorStartTimeUnset"
  by (simp add: method_defs Let_def)

text \<open>
  For every other recorded time the claim holds: the click moves the game to \<open>RESULT\<close>
  exactly when the recorded time is not 0, and then \<open>reactionTime\<close> is the clock reading
  minus \<open>startTime\<close>, at least 0 when the clock is not behind it.
\<close>

lemma reaction_time_is_clock_difference:
  assumes "currentState w = READY" and "startTime w = Some t0" and "t0 \<le> now"
    and "tagName \<noteq> ''BUTTON''"
  shows "(currentState (handleBodyClick tagName now w) = RESULT \<longleftrightarrow> t0 \<noteq> 0) \<and>
         (currentState (handleBodyClick tagName now w) = RESULT \<longrightarrow>
            reactionTime (handleBodyClick tagName now w) = Some (now - t0) \<and> 0 \<le> now - t0)"
  using assms
  by (simp add: handleBodyClick_def handleReactionClick_def consoleLog_def setState_def
      updateUI_def saveBestScore_def Let_def)

subsection \<open>C3: the best score\<close>

text \<open>
  Claim C3 says that the persisted best score never increases. The record test of
  \<open>handleReactionClick\<close> is \<open>!this.bestScore || this.reactionTime < this.bestScore\<close>,
  and a best score of 0 is falsy. On a fresh page, a click in the millisecond of the
  trigger gives the reaction time 0, stored as the text \<open>0\<close>; the next round, with the
  reaction time 250, is taken for a record and the stored text becomes \<open>250\<close>.
\<close>

theorem bestScore_rises_after_zero:
  "bestScore (run [Start 0, Fire 1 1000, Click ''DIV'' 1000] (newReactionGame None))
     = Some (Num 0) \<and>
   localStorage (run [Start 0, Fire 1 1000, Click ''DIV'' 1000] (newReactionGame None))
     = Some [48] \<and>
   bestScore (run [Start 0, Fire 1 1000, Click ''DIV'' 1000,
                   Reset, Start 0, Fire 2 5000, Click ''DIV'' 5250] (newReactionGame None))
     = Some (Num 250) \<and>
   localStorage (run [Start 0, Fire 1 1000, Click ''DIV'' 1000,
                      Reset, Start 0, Fire 2 5000, Click ''DIV'' 5250] (newReactionGame None))
     = Some [50, 53, 48]"
  by (simp add: method_defs Let_def numToString_def digits.simps)

text \<open>
  From a stored best score other than 0 no event raises it: the test of line 232 then lets
  only a strictly smaller reaction time through.
\<close>

lemma bestScore_step:
  assumes "bestScore w = Some (Num b)" and "b \<noteq> 0"
  shows "\<exists>b'. bestScore (step e w) = Some (Num b') \<and> b' \<le> b"
proof (cases e)
  case (Fire h' now)
  show ?thesis
  proof (cases "find (\<lambda>t. fst t = h') (timers w)")
    case None
    with assms Fire show ?thesis by (simp add: fire_def)
  next
    case (Some t)
    obtain x y cb where t: "t = (x, y, cb)" by (cases t)
    with Some assms Fire show ?thesis
      by (cases cb)
         (auto simp: fire_def triggerCallback_def resetGame_def setState_def updateUI_def
           consoleLog_def clearAndForgetWaitTimeout_def clearTimeout_def setTimeout_def
           split: option.splits GameStates.splits)
  qed
qed (use assms in \<open>auto simp: method_defs Let_def split: option.splits GameStates.splits\<close>)

subsection \<open>C4: the result message\<close>

text \<open>
  Claim C4. \<open>getResultMessage\<close> gives the first message below 200, the second from 200
  and below 300, the third from 300 and below 500, the fourth from 500 on; the four are
  different texts. With \<open>isNewRecord\<close> the notice, which is not empty, is appended, and
  without it nothing is. The result depends on the two arguments only.
\<close>

theorem getResultMessage_thresholds:
  "(t < 200 \<longrightarrow> getResultMessage t False = msgUltraFast) \<and>
   (200 \<le> t \<and> t < 300 \<longrightarrow> getResultMessage t False = msgGreat) \<and>
   (300 \<le> t \<and> t < 500 \<longrightarrow> getResultMessage t False = msgGood) \<and>
   (500 \<le> t \<longrightarrow> getResultMessage t False = msgRoomToImprove) \<and>
   getResultMessage t True = getResultMessage t False @ msgNewRecord \<and>
   msgNewRecord \<noteq> [] \<and>
   distinct [msgUltraFast, msgGreat, msgGood, msgRoomToImprove]"
  by (simp add: getResultMessage_def msgUltraFast_def msgGreat_def msgGood_def
      msgRoomToImprove_def msgNewRecord_def)

text \<open>The theorem at 150, 200, 450 and 500 ms.\<close>

theorem getResultMessage_thresholds_witness:
  "getResultMessage 150 False = msgUltraFast \<and>
   getResultMessage 200 False = msgGreat \<and>
   getResultMessage 450 True = msgGood @ msgNewRecord \<and>
   getResultMessage 500 False = msgRoomToImprove"
  using getResultMessage_thresholds [of 150] getResultMessage_thresholds [of 200]
    getResultMessage_thresholds [of 450] getResultMessage_thresholds [of 500]
  by simp

subsection \<open>C5: the reset timer of the error state\<close>

text \<open>
  Claim C5 says that a reset in \<open>ERROR\<close> cancels the pending 3000 ms reset timer, so that
  the superseded callback does not run afterwards. \<open>updateUI\<close> drops the handle of that
  timer, and \<open>resetGame\<close> clears only the handle in \<open>waitTimeout\<close>. After a start and an
  early click the timer with handle 2 is pending; it is still pending after the reset; and
  if a new round is started, its firing resets that round.
\<close>

theorem reset_leaves_autoReset_pending:
  "currentState (run [Start 0, Click ''DIV'' 500] (newReactionGame None)) = ERROR \<and>
   timers (run [Start 0, Click ''DIV'' 500] (newReactionGame None))
     = [(2, 3000, AutoResetCallback)] \<and>
   currentState (run [Start 0, Click ''DIV'' 500, Reset] (newReactionGame None)) = START \<and>
   timers (run [Start 0, Click ''DIV'' 500, Reset] (newReactionGame None))
     = [(2, 3000, AutoResetCallback)] \<and>
   currentState (run [Start 0, Click ''DIV'' 500, Reset, Start 0] (newReactionGame None))
     = WAITING \<and>
   currentState (run [Start 0, Click ''DIV'' 500, Reset, Start 0, Fire 2 3500]
                   (newReactionGame None)) = START"
  by (simp add: method_defs Let_def)

text \<open>
  Claim C5, amended. A reset in \<open>ERROR\<close> moves the game to \<open>START\<close> and leaves the reset
  timer pending. Nothing cancels a scheduled reset timer: it is still pending after
  \<open>resetGame\<close>, after \<open>startGame\<close>, after a click and after any other timer has fired.
  When it fires, it runs \<open>resetGame\<close>.
\<close>

theorem autoReset_never_cancelled:
  assumes "w = run es (newReactionGame slot)"
    and "(h, d, AutoResetCallback) \<in> set (timers w)"
  shows "(h, d, AutoResetCallback) \<in> set (timers (resetGame w)) \<and>
         currentState (resetGame w) = START \<and>
         (h, d, AutoResetCallback) \<in> set (timers (startGame rnd w)) \<and>
         (h, d, AutoResetCallback) \<in> set (timers (handleBodyClick tagName now w)) \<and>
         (h' \<noteq> h \<longrightarrow> (h, d, AutoResetCallback) \<in> set (timers (fire h' now w))) \<and>
         fire h now w = resetGame (clearTimeout h w)"
proof -
  have inv: "invariant w" using assms(1) by (simp add: invariant_reachable)
  have ne: "waitTimeout w \<noteq> Some h" using inv assms(2) by (rule autoReset_not_waitTimeout)
  note keep = timers_clearWaitTimeout [OF ne assms(2), simplified]
  have a: "(h, d, AutoResetCallback) \<in> set (timers (resetGame w))"
    using keep ne
    by (auto simp: resetGame_def setState_def updateUI_def consoleLog_def
        clearAndForgetWaitTimeout_def clearTimeout_def split: option.splits)
  have b: "currentState (resetGame w) = START"
    by (simp add: resetGame_def setState_def updateUI_def consoleLog_def)
  have c: "(h, d, AutoResetCallback) \<in> set (timers (startGame rnd w))"
    using keep ne
    by (auto simp: startGame_def setState_def updateUI_def consoleLog_def setTimeout_def
        clearWaitTimeout_def clearTimeout_def Let_def split: option.splits)
  have d: "(h, d, AutoResetCallback) \<in> set (timers (handleBodyClick tagName now w))"
    using keep ne assms(2)
    by (auto simp: handleBodyClick_def handleEarlyClick_def handleReactionClick_def
        saveBestScore_def setState_def updateUI_def consoleLog_def setTimeout_def
        clearAndForgetWaitTimeout_def clearTimeout_def Let_def
        split: option.splits GameStates.splits)
  have e: "(h, d, AutoResetCallback) \<in> set (timers (fire h' now w))" if "h' \<noteq> h"
  proof (cases "find (\<lambda>t. fst t = h') (timers w)")
    case None
    then show ?thesis using assms(2) by (simp add: fire_def)
  next
    case (Some t)
    obtain x y cb where t: "t = (x, y, cb)" by (cases t)
    show ?thesis
      using Some t that ne assms(2)
      by (cases cb)
         (auto simp: fire_def triggerCallback_def resetGame_def setState_def updateUI_def
           consoleLog_def clearAndForgetWaitTimeout_def clearTimeout_def
           split: option.splits)
  qed
  have "find (\<lambda>t. fst t = h) (timers w) = Some (h, d, AutoResetCallback)"
  proof -
    from inv have dist: "distinct (map fst (timers w))"
      by (simp add: invariant_def handlesOk_def handlesOf_def)
    obtain t where ft: "find (\<lambda>t. fst t = h) (timers w) = Some t"
      using assms(2) by (cases "find (\<lambda>t. fst t = h) (timers w)") (auto simp: find_None_iff)
    then have "t \<in> set (timers w)" "fst t = h"
      by (auto simp: find_Some_iff in_set_conv_nth)
    with dist assms(2) have "t = (h, d, AutoResetCallback)"
      by (auto simp: distinct_map inj_on_def)
    with ft show ?thesis by simp
  qed
  then have f: "fire h now w = resetGame (clearTimeout h w)"
    by (simp add: fire_def)
  from a b c d e f show ?thesis by simp
qed

text \<open>The theorem at the error state of a start and an early click, whose reset timer is 2.\<close>

theorem autoReset_never_cancelled_witness:
  "(2, 3000, AutoResetCallback)
     \<in> set (timers (run [Start 0, Click ''DIV'' 500] (newReactionGame None))) \<and>
   (2, 3000, AutoResetCallback)
     \<in> set (timers (resetGame (run [Start 0, Click ''DIV'' 500] (newReactionGame None)))) \<and>
   currentState (resetGame (run [Start 0, Click ''DIV'' 500] (newReactionGame None))) = START"
proof -
  have h: "(2, 3000, AutoResetCallback)
     \<in> set (timers (run [Start 0, Click ''DIV'' 500] (newReactionGame None)))"
    by (simp add: method_defs Let_def)
  from autoReset_never_cancelled [OF refl h] h show ?thesis by simp
qed

subsection \<open>C6: the handle in waitTimeout\<close>

text \<open>
  Claim C6 says that \<open>waitTimeout\<close> is \<open>null\<close> in \<open>START\<close>, \<open>READY\<close> and \<open>RESULT\<close>.
  The trigger callback does not set the field to \<open>null\<close>: after a start and the firing
  of the trigger the state is \<open>READY\<close> and the field holds the handle 1, and so it does
  in \<open>RESULT\<close> after the click.
\<close>

theorem waitTimeout_kept_in_ready:
  "currentState (run [Start 0, Fire 1 1000] (newReactionGame None)) = READY \<and>
   waitTimeout (run [Start 0, Fire 1 1000] (newReactionGame None)) = Some 1 \<and>
   currentState (run [Start 0, Fire 1 1000, Click ''DIV'' 1250] (newReactionGame None))
     = RESULT \<and>
   waitTimeout (run [Start 0, Fire 1 1000, Click ''DIV'' 1250] (newReactionGame None))
     = Some 1"
  by (simp add: method_defs Let_def)

text \<open>
  Claim C6, amended. In every state a run of the game reaches, \<open>waitTimeout\<close> is
  \<open>null\<close> in \<open>START\<close> and \<open>ERROR\<close>; in \<open>WAITING\<close> it holds the handle of the one
  pending trigger timer; in \<open>READY\<close> and \<open>RESULT\<close> it holds a handle that is not
  pending (that of the trigger that fired). Outside \<open>WAITING\<close> no trigger timer is pending:
  every transition that leaves \<open>WAITING\<close> without the trigger firing has cancelled it.
\<close>

theorem waitTimeout_by_state:
  assumes "w = run es (newReactionGame slot)"
  shows "(currentState w \<in> {START, ERROR} \<longrightarrow> waitTimeout w = None) \<and>
         (currentState w = WAITING \<longrightarrow>
            (case waitTimeout w of None \<Rightarrow> False
             | Some h \<Rightarrow> pendingOf TriggerCallback (timers w) = [h])) \<and>
         (currentState w \<in> {READY, RESULT} \<longrightarrow>
            (case waitTimeout w of None \<Rightarrow> False
             | Some h \<Rightarrow> h \<notin> set (handlesOf (timers w)))) \<and>
         (currentState w \<noteq> WAITING \<longrightarrow> pendingOf TriggerCallback (timers w) = [])"
proof -
  have inv: "invariant w" using assms(1) by (simp add: invariant_reachable)
  then show ?thesis
    by (cases "currentState w") (auto simp: invariant_def staleHandle_def split: option.splits)
qed

text \<open>The theorem at the start state, at a started game and at a game whose trigger fired.\<close>

theorem waitTimeout_by_state_witness:
  "currentState (run [] (newReactionGame None)) = START \<and>
   waitTimeout (run [] (newReactionGame None)) = None \<and>
   currentState (run [Start 0] (newReactionGame None)) = WAITING \<and>
   pendingOf TriggerCallback (timers (run [Start 0] (newReactionGame None))) = [1] \<and>
   currentState (run [Start 0, Fire 1 1000] (newReactionGame None)) = READY \<and>
   pendingOf TriggerCallback (timers (run [Start 0, Fire 1 1000] (newReactionGame None))) = []"
proof -
  have s0: "currentState (run [] (newReactionGame None)) = START"
    by (simp add: method_defs Let_def)
  have s1: "currentState (run [Start 0] (newReactionGame None)) = WAITING"
    and w1: "waitTimeout (run [Start 0] (newReactionGame None)) = Some 1"
    by (simp_all add: method_defs Let_def)
  have s2: "currentState (run [Start 0, Fire 1 1000] (newReactionGame None)) = READY"
    by (simp add: method_defs Let_def)
  from waitTimeout_by_state [OF refl, of "[]" None]
    waitTimeout_by_state [OF refl, of "[Start 0]" None]
    waitTimeout_by_state [OF refl, of "[Start 0, Fire 1 1000]" None]
    s0 s1 w1 s2
  show ?thesis by simp
qed

subsection \<open>C7: the storage slot\<close>

text \<open>
  Claim C7 says that \<open>loadBestScore\<close> returns the integer of a decimal text and reports
  absent for a missing slot and for any other text. It returns what \<open>parseInt\<close> reads:
  the text \<open>9007199254740993\<close> is a decimal integer and is read as 9007199254740992, the
  nearest double; the text \<open>12abc\<close> is not a decimal integer and is read as 12; the text
  \<open>abc\<close> is read as \<open>NaN\<close>, not as \<open>null\<close>.
\<close>

theorem loadBestScore_is_not_strict:
  "decimalText [57, 48, 48, 55, 49, 57, 57, 50, 53, 52, 55, 52, 48, 57, 57, 51] \<and>
   decimalValue [57, 48, 48, 55, 49, 57, 57, 50, 53, 52, 55, 52, 48, 57, 57, 51]
     = 9007199254740993 \<and>
   loadBestScore (Some [57, 48, 48, 55, 49, 57, 57, 50, 53, 52, 55, 52, 48, 57, 57, 51])
     = Some (Num 9007199254740992) \<and>
   \<not> decimalText [49, 50, 97, 98, 99] \<and>
   loadBestScore (Some [49, 50, 97, 98, 99]) = Some (Num 12) \<and>
   loadBestScore (Some [97, 98, 99]) = Some NaN \<and>
   loadBestScore (Some [97, 98, 99]) \<noteq> None"
  by (simp add: loadBestScore_def parseInt_def isWhiteSpace_def stripSign_def
      stripHexPrefix_def digitValue_def numberValue_example numberValue_safe
      decimalText_def decimalValue_def decimalOf_def isDecimalDigit_def)

text \<open>
  Claim C7, amended. \<open>loadBestScore\<close> returns \<open>null\<close> when the slot is missing or its
  text is empty. Any other text is read from its start: after white space and a sign,
  the longest run of decimal digits, or of hexadecimal digits after \<open>0x\<close> or \<open>0X\<close>, is
  read as an integer, negated after a minus sign, and rounded to the nearest double;
  what follows the run is ignored. When no digit stands there the result is \<open>NaN\<close>,
  which like \<open>null\<close> is falsy: the record test finds no score to beat in either. An
  integer below \<open>2^53\<close> in magnitude is its own double, so a decimal text of such an integer
  is read as that integer; from \<open>2^1024\<close> on the result is infinite. For a score below
  \<open>2^53\<close> in magnitude \<open>saveBestScore\<close> writes its decimal text, which reads back as
  the same integer. (Every text is of one of the four forms: lemma \<open>text_parts\<close>.)
\<close>

theorem loadBestScore_reads_leading_integer:
  "loadBestScore None = None \<and>
   loadBestScore (Some []) = None \<and>
   (list_all isWhiteSpace ws \<and> sg \<in> {[], [43], [45]} \<longrightarrow>
      (ds \<noteq> [] \<and> list_all isDecimalDigit ds \<and> \<not> startsWith isDecimalDigit rest \<and>
       \<not> hexPrefixed (ds @ rest) \<longrightarrow>
         loadBestScore (Some (ws @ sg @ ds @ rest))
           = Some (numberValue (signed sg (int (decimalOf ds))))) \<and>
      ((x = 120 \<or> x = 88) \<and> hs \<noteq> [] \<and> list_all isHexDigit hs \<and>
       \<not> startsWith isHexDigit rest \<longrightarrow>
         loadBestScore (Some (ws @ sg @ 48 # x # hs @ rest))
           = Some (numberValue (signed sg (int (hexOf hs))))) \<and>
      ((x = 120 \<or> x = 88) \<and> \<not> startsWith isHexDigit rest \<longrightarrow>
         loadBestScore (Some (ws @ sg @ 48 # x # rest)) = Some NaN) \<and>
      (\<not> startsWith isDecimalDigit body \<and>
       (sg = [] \<longrightarrow> \<not> startsWith isWhiteSpace body \<and> \<not> startsWith isSign body) \<and>
       ws @ sg @ body \<noteq> [] \<longrightarrow>
         loadBestScore (Some (ws @ sg @ body)) = Some NaN)) \<and>
   (\<bar>n\<bar> < 2 ^ 53 \<longrightarrow> numberValue n = Num n) \<and>
   (2 ^ 1024 \<le> n \<longrightarrow> numberValue n = Infinity) \<and>
   \<not> truthyNumber None \<and> \<not> truthyNumber (Some NaN) \<and>
   isNewRecord rt None \<and> isNewRecord rt (Some NaN) \<and>
   (decimalText s \<and> \<bar>decimalValue s\<bar> < 2 ^ 53 \<longrightarrow>
      loadBestScore (Some s) = Some (Num (decimalValue s))) \<and>
   (\<bar>v\<bar> < 2 ^ 53 \<longrightarrow>
      localStorage (saveBestScore v w) = Some (numToString v) \<and>
      decimalText (numToString v) \<and> decimalValue (numToString v) = v \<and>
      loadBestScore (localStorage (saveBestScore v w)) = Some (Num v))"
proof -
  have load: "loadBestScore (Some t) = Some (parseInt t)" if "t \<noteq> []" for t
    using that by (simp add: loadBestScore_def)
  have a: "loadBestScore (Some (ws @ sg @ ds @ rest))
             = Some (numberValue (signed sg (int (decimalOf ds))))"
    if "list_all isWhiteSpace ws" "sg \<in> {[], [43], [45]}" "ds \<noteq> []"
      "list_all isDecimalDigit ds" "\<not> startsWith isDecimalDigit rest"
      "\<not> hexPrefixed (ds @ rest)"
    using that parseInt_decimal_run [of ws sg ds rest] by (simp add: load)
  have b: "loadBestScore (Some (ws @ sg @ 48 # x # hs @ rest))
             = Some (numberValue (signed sg (int (hexOf hs))))"
    if "list_all isWhiteSpace ws" "sg \<in> {[], [43], [45]}" "x = 120 \<or> x = 88" "hs \<noteq> []"
      "list_all isHexDigit hs" "\<not> startsWith isHexDigit rest"
    using that parseInt_hex_run [of ws sg x hs rest] by (simp add: load)
  have c: "loadBestScore (Some (ws @ sg @ 48 # x # rest)) = Some NaN"
    if "list_all isWhiteSpace ws" "sg \<in> {[], [43], [45]}" "x = 120 \<or> x = 88"
      "\<not> startsWith isHexDigit rest"
    using that parseInt_hex_no_digit [of ws sg x rest] by (simp add: load)
  have d: "loadBestScore (Some (ws @ sg @ body)) = Some NaN"
    if "list_all isWhiteSpace ws" "sg \<in> {[], [43], [45]}" "\<not> startsWith isDecimalDigit body"
      "sg = [] \<longrightarrow> \<not> startsWith isWhiteSpace body \<and> \<not> startsWith isSign body"
      "ws @ sg @ body \<noteq> []"
    using that parseInt_no_digit [of ws sg body] load [of "ws @ sg @ body"] by simp
  have e: "loadBestScore (Some u) = Some (Num (decimalValue u))"
    if "decimalText u" "\<bar>decimalValue u\<bar> < 2 ^ 53" for u
  proof -
    from that(1) have "u \<noteq> []" by (auto simp: decimalText_def)
    with parseInt_decimalText [OF that(1)] numberValue_safe [OF that(2)] show ?thesis
      by (simp add: load)
  qed
  have f: "decimalText (numToString v)" "decimalValue (numToString v) = v"
    using numToString_decimal [of v] by simp_all
  have g: "loadBestScore (localStorage (saveBestScore v w)) = Some (Num v)"
    if "\<bar>v\<bar> < 2 ^ 53"
    using e [of "numToString v"] f that
    by (simp add: saveBestScore_def del: power_numeral)
  have h: "localStorage (saveBestScore v w) = Some (numToString v)"
    by (simp add: saveBestScore_def)
  have i: "loadBestScore None = None" "loadBestScore (Some []) = None"
    by (simp_all add: loadBestScore_def)
  have j: "\<not> truthyNumber None" "\<not> truthyNumber (Some NaN)"
    "isNewRecord rt None" "isNewRecord rt (Some NaN)"
    by (simp_all add: isNewRecord_def)
  from a b c d e f g h i j numberValue_safe [of n] numberValue_overflow [of n]
  show ?thesis by blast
qed

text \<open>
  The theorem at the texts \<open>-12abc\<close> after a space, \<open>0x1F\<close>, \<open>0x\<close>, \<open>abc\<close> and
  \<open>180\<close>, and at the score 180 saved on a fresh page.
\<close>

theorem loadBestScore_reads_leading_integer_witness:
  "loadBestScore (Some [32, 45, 49, 50, 97, 98, 99]) = Some (Num (- 12)) \<and>
   loadBestScore (Some [48, 120, 49, 70]) = Some (Num 31) \<and>
   loadBestScore (Some [48, 120]) = Some NaN \<and>
   loadBestScore (Some [97, 98, 99]) = Some NaN \<and>
   loadBestScore (Some [49, 56, 48]) = Some (Num 180) \<and>
   localStorage (saveBestScore 180 (newReactionGame None)) = Some [49, 56, 48] \<and>
   loadBestScore (localStorage (saveBestScore 180 (newReactionGame None))) = Some (Num 180)"
proof -
  have t: "numToString 180 = [49, 56, 48]"
    by (simp add: numToString_def digits.simps)
  have n: "numberValue (- 12) = Num (- 12)" "numberValue 31 = Num 31"
    by (simp_all add: numberValue_safe)
  from loadBestScore_reads_leading_integer
         [where ws = "[32]" and sg = "[45]" and ds = "[49, 50]" and rest = "[97, 98, 99]"
            and x = 120 and hs = "[49, 70]" and body = "[97, 98, 99]" and n = 180
            and s = "[49, 56, 48]" and v = 180 and w = "newReactionGame None" and rt = 250]
       loadBestScore_reads_leading_integer
         [where ws = "[]" and sg = "[]" and ds = "[49, 50]" and rest = "[]"
            and x = 120 and hs = "[49, 70]" and body = "[97, 98, 99]" and n = 180
            and s = "[49, 56, 48]" and v = 180 and w = "newReactionGame None" and rt = 250]
       t n
  show ?thesis
    by (simp add: isWhiteSpace_def isDecimalDigit_def isHexDigit_def isSign_def
        startsWith_def hexPrefixed_def signed_def decimalOf_def hexOf_def hexDigitOf_def
        decimalText_def decimalValue_def)
qed

subsection \<open>C8: a click in READY without a start time\<close>

text \<open>
  Claim C8. A click on the surface in \<open>READY\<close> while \<open>startTime\<close> is \<open>null\<close> writes
  the error message to the console and does nothing else: the state stays \<open>READY\<close>, and
  \<open>startTime\<close>, \<open>reactionTime\<close>, the best score and the stored text are as before. The
  method returns normally.
\<close>

theorem missing_startTime_dropped:
  assumes "currentState w = READY" and "startTime w = None" and "tagName \<noteq> ''BUTTON''"
  shows "handleBodyClick tagName now w = w\<lparr>console := console w @ [ErrorStartTimeUnset]\<rparr> \<and>
         currentState (handleBodyClick tagName now w) = READY \<and>
         startTime (handleBodyClick tagName now w) = None \<and>
         reactionTime (handleBodyClick tagName now w) = reactionTime w \<and>
         waitTimeout (handleBodyClick tagName now w) = waitTimeout w \<and>
         bestScore (handleBodyClick tagName now w) = bestScore w \<and>
         localStorage (handleBodyClick tagName now w) = localStorage w \<and>
         timers (handleBodyClick tagName now w) = timers w"
  using assms by (simp add: handleBodyClick_def handleReactionClick_def consoleLog_def)

text \<open>The theorem at a state in \<open>READY\<close> with no start time and a best score of 180.\<close>

theorem missing_startTime_dropped_witness:
  "currentState readyWithoutStartTime = READY \<and>
   startTime readyWithoutStartTime = None \<and>
   handleBodyClick ''DIV'' 1250 readyWithoutStartTime
     = readyWithoutStartTime\<lparr>console := [ErrorStartTimeUnset]\<rparr> \<and>
   bestScore (handleBodyClick ''DIV'' 1250 readyWithoutStartTime) = Some (Num 180)"
proof -
  have h1: "currentState readyWithoutStartTime = READY"
    by (simp add: readyWithoutStartTime_def)
  have h2: "startTime readyWithoutStartTime = None"
    by (simp add: readyWithoutStartTime_def)
  have h3: "''DIV'' \<noteq> ''BUTTON''" by simp
  from missing_startTime_dropped [OF h1 h2 h3, of 1250] h1 h2
  show ?thesis by (simp add: readyWithoutStartTime_def)
qed

subsection \<open>C9: clicks outside a round\<close>

text \<open>
  Claim C9. A click that reaches the body's listener while the state is \<open>START\<close>,
  \<open>RESULT\<close> or \<open>ERROR\<close> changes nothing: every field of the game, the stored text, the
  pending timers and the console are as before.
\<close>

theorem click_outside_round_ignored:
  assumes "currentState w \<in> {START, RESULT, ERROR}"
  shows "handleBodyClick tagName now w = w"
  using assms by (auto simp: handleBodyClick_def)

text \<open>The theorem at a fresh page, at a finished round and at an early click.\<close>

theorem click_outside_round_ignored_witness:
  "currentState (newReactionGame None) = START \<and>
   handleBodyClick ''DIV'' 5 (newReactionGame None) = newReactionGame None \<and>
   currentState (run [Start 0, Fire 1 1000, Click ''DIV'' 1250] (newReactionGame None)) = RESULT \<and>
   handleBodyClick ''DIV'' 1300 (run [Start 0, Fire 1 1000, Click ''DIV'' 1250] (newReactionGame None))
     = run [Start 0, Fire 1 1000, Click ''DIV'' 1250] (newReactionGame None) \<and>
   currentState (run [Start 0, Click ''DIV'' 500] (newReactionGame None)) = ERROR \<and>
   handleBodyClick ''DIV'' 600 (run [Start 0, Click ''DIV'' 500] (newReactionGame None))
     = run [Start 0, Click ''DIV'' 500] (newReactionGame None)"
proof -
  have s0: "currentState (newReactionGame None) = START"
    by (simp add: method_defs)
  have s1: "currentState (run [Start 0, Fire 1 1000, Click ''DIV'' 1250] (newReactionGame None))
      = RESULT"
    by (simp add: method_defs Let_def)
  have s2: "currentState (run [Start 0, Click ''DIV'' 500] (newReactionGame None)) = ERROR"
    by (simp add: method_defs Let_def)
  have m0: "currentState (newReactionGame None) \<in> {START, RESULT, ERROR}"
    using s0 by simp
  have m1: "currentState (run [Start 0, Fire 1 1000, Click ''DIV'' 1250] (newReactionGame None))
      \<in> {START, RESULT, ERROR}"
    using s1 by simp
  have m2: "currentState (run [Start 0, Click ''DIV'' 500] (newReactionGame None))
      \<in> {START, RESULT, ERROR}"
    using s2 by simp
  from click_outside_round_ignored [OF m0, of "''DIV''" 5]
    click_outside_round_ignored [OF m1, of "''DIV''" 1300]
    click_outside_round_ignored [OF m2, of "''DIV''" 600] s0 s1 s2
  show ?thesis by simp
qed

subsection \<open>C10: a start time of 0\<close>

text \<open>
  Claim C10. The guard of \<open>handleReactionClick\<close> tests \<open>!this.startTime\<close>, and 0 is
  falsy: a click on the surface in \<open>READY\<close> while \<open>startTime\<close> is 0 takes the branch of
  the missing start time. The error message is written, the state stays \<open>READY\<close>, and no
  reaction time or best score is recorded.
\<close>

theorem zero_startTime_dropped:
  assumes "currentState w = READY" and "startTime w = Some 0" and "tagName \<noteq> ''BUTTON''"
  shows "handleBodyClick tagName now w = w\<lparr>console := console w @ [ErrorStartTimeUnset]\<rparr> \<and>
         currentState (handleBodyClick tagName now w) = READY \<and>
         reactionTime (handleBodyClick tagName now w) = reactionTime w \<and>
         bestScore (handleBodyClick tagName now w) = bestScore w \<and>
         localStorage (handleBodyClick tagName now w) = localStorage w"
  using assms by (simp add: handleBodyClick_def handleReactionClick_def consoleLog_def)

text \<open>The theorem at a trigger fired when the clock reads 0, and a click at 250.\<close>

theorem zero_startTime_dropped_witness:
  "currentState (run [Start 0, Fire 1 0] (newReactionGame None)) = READY \<and>
   startTime (run [Start 0, Fire 1 0] (newReactionGame None)) = Some 0 \<and>
   currentState (handleBodyClick ''DIV'' 250 (run [Start 0, Fire 1 0] (newReactionGame None)))
     = READY \<and>
   reactionTime (handleBodyClick ''DIV'' 250 (run [Start 0, Fire 1 0] (newReactionGame None)))
     = None"
proof -
  have h1: "currentState (run [Start 0, Fire 1 0] (newReactionGame None)) = READY"
    by (simp add: method_defs Let_def)
  have h2: "startTime (run [Start 0, Fire 1 0] (newReactionGame None)) = Some 0"
    by (simp add: method_defs Let_def)
  have h3: "''DIV'' \<noteq> ''BUTTON''" by simp
  have r: "reactionTime (run [Start 0, Fire 1 0] (newReactionGame None)) = None"
    by (simp add: method_defs Let_def)
  from zero_startTime_dropped [OF h1 h2 h3, of 250] h1 h2 r
  show ?thesis by simp
qed

end
